theory Spec2Isabelle
  imports Main "HOL-Library.Word"
begin

section \<open>Image Extractor (app.py): data model\<close>

text \<open>
  Python values as the code meets them. A \<open>bytes\<close> object is a list of 8-bit words.
  A \<open>str\<close> is a \<open>string\<close>; each \<open>char\<close> stands for one code point below 256.
  The values found in spreadsheet cells and passed to \<open>fetch_image\<close> are \<open>pyval\<close>:
  \<open>None\<close>, a \<open>str\<close>, an \<open>int\<close>, a \<open>bool\<close>, the float \<open>nan\<close> (what pandas puts
  in an empty cell), and \<open>PObj t s x\<close> for any other object, given by what the code and
  openpyxl observe of it: its truth value \<open>t\<close>, its \<open>str()\<close> rendering \<open>s\<close>, and
  whether a cell can hold it: \<open>x\<close> is \<open>None\<close> when it can (a float, a date, a numpy
  scalar) and \<open>Some e\<close> when openpyxl refuses it by raising \<open>e\<close> (\<open>ValueError\<close>
  for a list or a dict).

  Exceptions (subclasses of \<open>Exception\<close>): \<open>SSLError\<close> and \<open>HTTPError\<close> are the two
  classes of \<open>requests.exceptions\<close> the code depends on, \<open>ValueError\<close> carries its
  message, \<open>Exc n\<close> is any other exception class, named \<open>n\<close>.
\<close>

type_synonym byte = "8 word"
type_synonym bytes = "byte list"

datatype exn = SSLError | HTTPError | ValueError string | Exc string

datatype pyval = PNone | PStr string | PInt int | PBool bool | PNaN | PObj bool string "exn option"

fun exn_name :: "exn \<Rightarrow> string" where
  "exn_name SSLError = ''SSLError''"
| "exn_name HTTPError = ''HTTPError''"
| "exn_name (ValueError m) = ''ValueError''"
| "exn_name (Exc n) = n"

subsection \<open>Config\<close>

definition TIMEOUT :: nat where "TIMEOUT = 25"
definition MAX_BYTES :: nat where "MAX_BYTES = 12000000"
definition THUMB_PX :: nat where "THUMB_PX = 96"

subsection \<open>Python built-ins used by the code\<close>

text \<open>\<open>str.isspace\<close> on one code point below 256: TAB..CR, FS..US, space, NEL, NBSP.\<close>

definition py_isspace :: "char \<Rightarrow> bool" where
  "py_isspace c = (let n = of_char c :: nat in
     (9 \<le> n \<and> n \<le> 13) \<or> (28 \<le> n \<and> n \<le> 32) \<or> n = 133 \<or> n = 160)"

definition py_strip :: "string \<Rightarrow> string" where
  "py_strip s = rev (dropWhile py_isspace (rev (dropWhile py_isspace s)))"

definition startswith :: "string \<Rightarrow> string \<Rightarrow> bool" where
  "startswith s p = (take (length p) s = p)"

text \<open>\<open>str(n)\<close> for an \<open>int\<close>: decimal digits, with a minus sign when negative.\<close>

definition digit_char :: "nat \<Rightarrow> char" where
  "digit_char d = ''0123456789'' ! d"

fun nat_digits :: "nat \<Rightarrow> string" where
  "nat_digits n = (if n < 10 then [digit_char n] else nat_digits (n div 10) @ [digit_char (n mod 10)])"

declare nat_digits.simps [simp del]

definition int_str :: "int \<Rightarrow> string" where
  "int_str i = (if i < 0 then CHR ''-'' # nat_digits (nat (- i)) else nat_digits (nat i))"

fun py_truthy :: "pyval \<Rightarrow> bool" where
  "py_truthy PNone = False"
| "py_truthy (PStr s) = (s \<noteq> [])"
| "py_truthy (PInt i) = (i \<noteq> 0)"
| "py_truthy (PBool b) = b"
| "py_truthy PNaN = True"
| "py_truthy (PObj t s x) = t"

fun py_str :: "pyval \<Rightarrow> string" where
  "py_str PNone = ''None''"
| "py_str (PStr s) = s"
| "py_str (PInt i) = int_str i"
| "py_str (PBool b) = (if b then ''True'' else ''False'')"
| "py_str PNaN = ''nan''"
| "py_str (PObj t s x) = s"

text \<open>\<open>xs.index(x)\<close>: the first position of \<open>x\<close>, \<open>None\<close> where Python raises.\<close>

fun index_of :: "'a list \<Rightarrow> 'a \<Rightarrow> nat option" where
  "index_of [] x = None"
| "index_of (y # ys) x = (if y = x then Some 0 else map_option Suc (index_of ys x))"

text \<open>\<open>a or b\<close>\<close>

definition py_or :: "pyval \<Rightarrow> pyval \<Rightarrow> pyval" where
  "py_or a b = (if py_truthy a then a else b)"

section \<open>HTTP\<close>

text \<open>
  One call of \<open>Session.get\<close>: the URL and the keyword arguments the code passes.
  \<open>req_verify\<close> is \<open>True\<close> unless the call passes \<open>verify=False\<close>.
\<close>

record request =
  req_url :: string
  req_timeout :: nat
  req_stream :: bool
  req_allow_redirects :: bool
  req_headers :: "(string \<times> string) list"
  req_verify :: bool

text \<open>
  What the code reads of a \<open>Response\<close>: the status code, \<open>r.content\<close> and what
  \<open>r.raw.read\<close> would deliver; reading either may raise.
\<close>

record response =
  status_code :: nat
  content :: "exn + bytes"
  raw :: "exn + bytes"

text \<open>
  The libraries the code calls are parameters of the model. The network is a state
  \<open>'w\<close>: \<open>http_get\<close> answers a request in a state with an exception or a response, and
  a next state. \<open>pil_format\<close> is \<open>Image.open(io.BytesIO(b)).format\<close> (it may raise, or
  be \<open>None\<close>), \<open>png_thumb\<close> is the body of \<open>to_png_thumb\<close> (Pillow decoding, resizing and
  PNG encoding), \<open>xl_image\<close> is the constructor of openpyxl's \<open>Image\<close>, which may raise.
\<close>

record 'w env =
  http_get :: "request \<Rightarrow> 'w \<Rightarrow> (exn + response) \<times> 'w"
  pil_format :: "bytes \<Rightarrow> exn + string option"
  png_thumb :: "bytes \<Rightarrow> nat \<Rightarrow> exn + bytes"
  xl_image :: "bytes \<Rightarrow> exn option"

text \<open>\<open>Response.raise_for_status\<close>: \<open>HTTPError\<close> for the 4xx and 5xx codes.\<close>

definition raise_for_status :: "response \<Rightarrow> exn option" where
  "raise_for_status r =
     (if 400 \<le> status_code r \<and> status_code r < 600 then Some HTTPError else None)"

text \<open>\<open>r.content if r.content else r.raw.read(MAX_BYTES + 1)\<close>\<close>

definition read_body :: "response \<Rightarrow> exn + bytes" where
  "read_body r =
     (case content r of
        Inl e \<Rightarrow> Inl e
      | Inr c \<Rightarrow>
          if c \<noteq> [] then Inr c
          else (case raw r of Inl e \<Rightarrow> Inl e | Inr s \<Rightarrow> Inr (take (MAX_BYTES + 1) s)))"

text \<open>
  \<open>s.get(url, timeout=TIMEOUT, stream=True, allow_redirects=True, headers=headers)\<close>
  with \<open>headers = {"Referer": referer}\<close>.
\<close>

definition mk_request :: "string \<Rightarrow> string \<Rightarrow> bool \<Rightarrow> request" where
  "mk_request u referer v =
     \<lparr>req_url = u, req_timeout = TIMEOUT, req_stream = True, req_allow_redirects = True,
      req_headers = [(''Referer'', referer)], req_verify = v\<rparr>"

text \<open>Line 61: \<open>return data if data and len(data) <= MAX_BYTES else b""\<close>\<close>

definition bounded :: "bytes \<Rightarrow> bytes" where
  "bounded data = (if data \<noteq> [] \<and> length data \<le> MAX_BYTES then data else [])"

text \<open>
  Lines 56-58, the body of the inner \<open>try\<close>: the fallback GET, its status check and
  the read of its body.
\<close>

definition fallback_body :: "'w env \<Rightarrow> string \<Rightarrow> string \<Rightarrow> 'w \<Rightarrow> (exn + bytes) \<times> 'w" where
  "fallback_body E alt u w =
     (case http_get E (mk_request alt u True) w of
        (Inl e, w2) \<Rightarrow> (Inl e, w2)
      | (Inr r2, w2) \<Rightarrow>
          (case raise_for_status r2 of
             Some e \<Rightarrow> (Inl e, w2)
           | None \<Rightarrow> (read_body r2, w2)))"

text \<open>
  Lines 51-61, once the first \<open>try\<close> statement has produced its outcome \<open>res\<close>
  (an exception that propagates, or the response \<open>r\<close>). \<open>calls\<close> are the requests
  issued so far. The result is the returned bytes or the exception raised, the next
  network state, and every request issued. \<open>alt_url\<close> is line 54,
  \<open>"http://" + url[len("https://"):]\<close>.
\<close>

definition alt_url :: "string \<Rightarrow> string" where
  "alt_url u = ''http://'' @ drop (length ''https://'') u"

definition after_get ::
  "'w env \<Rightarrow> string \<Rightarrow> (exn + response) \<Rightarrow> 'w \<Rightarrow> request list \<Rightarrow> (exn + bytes) \<times> 'w \<times> request list" where
  "after_get E u res w calls =
     (case res of
        Inl e \<Rightarrow> (Inl e, w, calls)
      | Inr r \<Rightarrow>
          (case raise_for_status r of
             Some e \<Rightarrow> (Inl e, w, calls)
           | None \<Rightarrow>
               (case read_body r of
                  Inl e \<Rightarrow> (Inl e, w, calls)
                | Inr data \<Rightarrow>
                    if data = [] \<and> startswith u ''https://'' then
                      (let alt = alt_url u in
                       case fallback_body E alt u w of
                         (Inl e, w2) \<Rightarrow> (Inr [], w2, calls @ [mk_request alt u True])
                       | (Inr data2, w2) \<Rightarrow> (Inr (bounded data2), w2, calls @ [mk_request alt u True]))
                    else (Inr (bounded data), w, calls))))"

text \<open>
  Lines 47-50, the first \<open>try\<close> statement: the GET, repeated once with
  \<open>verify=False\<close> when it raises \<open>SSLError\<close>. The result is the exception that
  propagates or the response \<open>r\<close>, the next network state, and the requests issued.
\<close>

definition first_get :: "'w env \<Rightarrow> 'w \<Rightarrow> string \<Rightarrow> (exn + response) \<times> 'w \<times> request list" where
  "first_get E w u =
     (case http_get E (mk_request u u True) w of
        (Inl SSLError, w1) \<Rightarrow>
          (case http_get E (mk_request u u False) w1 of
             (res, w2) \<Rightarrow> (res, w2, [mk_request u u True, mk_request u u False]))
      | (res, w1) \<Rightarrow> (res, w1, [mk_request u u True]))"

text \<open>
  \<open>fetch_image\<close>. The argument is any Python value, since the code tests
  \<open>isinstance(url, str)\<close> first.
\<close>

definition fetch_image :: "'w env \<Rightarrow> 'w \<Rightarrow> pyval \<Rightarrow> (exn + bytes) \<times> 'w \<times> request list" where
  "fetch_image E w url =
     (case url of
        PStr u \<Rightarrow>
          if py_strip u = [] then (Inr [], w, [])
          else (case first_get E w u of (res, w1, calls) \<Rightarrow> after_get E u res w1 calls)
      | _ \<Rightarrow> (Inr [], w, []))"

section \<open>Imaging\<close>

text \<open>
  \<open>str.upper\<close> on the format identifiers Pillow reports, which are ASCII: \<open>a\<close>..\<open>z\<close>
  become \<open>A\<close>..\<open>Z\<close>, every other character stays. (Python's \<open>upper\<close> sends a
  non-ASCII code point to non-ASCII code points or to \<open>SS\<close>, which occurs in none of the
  literals \<open>sniff_mime\<close> compares with, so the comparisons come out the same.)
\<close>

definition upper_char :: "char \<Rightarrow> char" where
  "upper_char c =
     (case index_of ''abcdefghijklmnopqrstuvwxyz'' c of
        Some i \<Rightarrow> ''ABCDEFGHIJKLMNOPQRSTUVWXYZ'' ! i
      | None \<Rightarrow> c)"

definition str_upper :: "string \<Rightarrow> string" where
  "str_upper s = map upper_char s"

definition sniff_mime :: "'w env \<Rightarrow> bytes \<Rightarrow> string" where
  "sniff_mime E img_bytes =
     (let fmt0 = (case pil_format E img_bytes of
                    Inl e \<Rightarrow> ''PNG''
                  | Inr None \<Rightarrow> ''PNG''
                  | Inr (Some f) \<Rightarrow> if f \<noteq> [] then f else ''PNG'');
          fmt = str_upper fmt0
      in if fmt = ''JPG'' \<or> fmt = ''JPEG'' then ''image/jpeg''
         else if fmt = ''PNG'' then ''image/png''
         else if fmt = ''GIF'' then ''image/gif''
         else ''image/png'')"

text \<open>
  \<open>base64.b64encode\<close> of the standard library: the RFC 4648 alphabet, three bytes to
  four characters, \<open>=\<close> padding.
\<close>

definition b64_alphabet :: string where
  "b64_alphabet = ''ABCDEFGHIJKLMNOPQRSTUVWXYZabcdefghijklmnopqrstuvwxyz0123456789+/''"

definition b64_char :: "nat \<Rightarrow> char" where
  "b64_char i = b64_alphabet ! i"

text \<open>The four 6-bit groups of three bytes \<open>a\<close>, \<open>b\<close>, \<open>c\<close>.\<close>

definition sextet1 :: "byte \<Rightarrow> nat" where
  "sextet1 a = unat a div 4"

definition sextet2 :: "byte \<Rightarrow> byte \<Rightarrow> nat" where
  "sextet2 a b = (unat a mod 4) * 16 + unat b div 16"

definition sextet3 :: "byte \<Rightarrow> byte \<Rightarrow> nat" where
  "sextet3 b c = (unat b mod 16) * 4 + unat c div 64"

definition sextet4 :: "byte \<Rightarrow> nat" where
  "sextet4 c = unat c mod 64"

fun b64encode :: "bytes \<Rightarrow> string" where
  "b64encode (a # b # c # rest) =
     [b64_char (sextet1 a), b64_char (sextet2 a b), b64_char (sextet3 b c), b64_char (sextet4 c)]
     @ b64encode rest"
| "b64encode [a, b] =
     [b64_char (sextet1 a), b64_char (sextet2 a b), b64_char (sextet3 b 0), CHR ''='']"
| "b64encode [a] =
     [b64_char (sextet1 a), b64_char (sextet2 a 0), CHR ''='', CHR ''='']"
| "b64encode [] = []"

text \<open>
  Base64 decoding (RFC 4648), the inverse the round-trip claim speaks of: four
  characters to three bytes, the last group possibly padded; \<open>None\<close> on input that is
  not a canonical encoding.
\<close>

definition b64_index :: "char \<Rightarrow> nat option" where
  "b64_index c = index_of b64_alphabet c"

definition octet1 :: "nat \<Rightarrow> nat \<Rightarrow> byte" where
  "octet1 i1 i2 = of_nat (i1 * 4 + i2 div 16)"

definition octet2 :: "nat \<Rightarrow> nat \<Rightarrow> byte" where
  "octet2 i2 i3 = of_nat ((i2 mod 16) * 16 + i3 div 4)"

definition octet3 :: "nat \<Rightarrow> nat \<Rightarrow> byte" where
  "octet3 i3 i4 = of_nat ((i3 mod 4) * 64 + i4)"

fun b64decode :: "string \<Rightarrow> bytes option" where
  "b64decode [] = Some []"
| "b64decode (c1 # c2 # c3 # c4 # rest) =
     (if rest = [] \<and> c4 = CHR ''='' then
        (if c3 = CHR ''='' then
           (case (b64_index c1, b64_index c2) of
              (Some i1, Some i2) \<Rightarrow> if i2 mod 16 = 0 then Some [octet1 i1 i2] else None
            | _ \<Rightarrow> None)
         else
           (case (b64_index c1, b64_index c2, b64_index c3) of
              (Some i1, Some i2, Some i3) \<Rightarrow>
                if i3 mod 4 = 0 then Some [octet1 i1 i2, octet2 i2 i3] else None
            | _ \<Rightarrow> None))
      else
        (case (b64_index c1, b64_index c2, b64_index c3, b64_index c4) of
           (Some i1, Some i2, Some i3, Some i4) \<Rightarrow>
             map_option ((@) [octet1 i1 i2, octet2 i2 i3, octet3 i3 i4]) (b64decode rest)
         | _ \<Rightarrow> None))"
| "b64decode _ = None"

definition to_data_url :: "'w env \<Rightarrow> bytes \<Rightarrow> string" where
  "to_data_url E img_bytes =
     (let mime = sniff_mime E img_bytes;
          b64 = b64encode img_bytes
      in ''data:'' @ mime @ '';base64,'' @ b64)"

text \<open>\<open>to_png_thumb\<close> is Pillow throughout: the parameter \<open>png_thumb\<close>.\<close>

definition to_png_thumb :: "'w env \<Rightarrow> bytes \<Rightarrow> nat \<Rightarrow> exn + bytes" where
  "to_png_thumb E img_bytes max_px = png_thumb E img_bytes max_px"

section \<open>IO: the sheet builder\<close>

text \<open>
  A \<open>DataFrame\<close>: its column labels and its rows, one value per column. A worksheet:
  the cell values row by row (row 1 first, column 1 first; a cell that does not exist
  reads as \<open>None\<close>), the images added with their anchor row and column, and the row
  heights and column widths that were set.
\<close>

record dataframe =
  df_columns :: "string list"
  df_rows :: "pyval list list"

record worksheet =
  ws_cells :: "pyval list list"
  ws_images :: "(bytes \<times> nat \<times> nat) list"
  ws_row_heights :: "(nat \<times> nat) list"
  ws_col_widths :: "(nat \<times> nat) list"

text \<open>\<open>df.head(n)\<close> for positive \<open>n\<close>, and \<open>df[name] = ""\<close> for a new column.\<close>

definition df_head :: "nat \<Rightarrow> dataframe \<Rightarrow> dataframe" where
  "df_head n df = df\<lparr>df_rows := take n (df_rows df)\<rparr>"

definition df_add_column :: "string \<Rightarrow> pyval \<Rightarrow> dataframe \<Rightarrow> dataframe" where
  "df_add_column name v df =
     df\<lparr>df_columns := df_columns df @ [name], df_rows := map (\<lambda>r. r @ [v]) (df_rows df)\<rparr>"

text \<open>
  Storing a value in a cell, as openpyxl's \<open>Cell\<close> does when a row is appended and when
  \<open>cell.value\<close> is assigned. A \<open>str\<close> goes through \<open>check_string\<close>: it is cut to its
  first 32767 characters, and \<open>IllegalCharacterError\<close> is raised when what is left holds
  a control character other than TAB, LF and CR (code points 0-8, 11, 12 and 14-31).
  Numbers, booleans and \<open>None\<close> are stored as they are. An object openpyxl refuses
  raises its exception.
\<close>

definition illegal_char :: "char \<Rightarrow> bool" where
  "illegal_char c = (let n = of_char c :: nat in n \<le> 8 \<or> n = 11 \<or> n = 12 \<or> (14 \<le> n \<and> n \<le> 31))"

definition check_string :: "string \<Rightarrow> exn + string" where
  "check_string s =
     (let v = take 32767 s
      in if list_ex illegal_char v then Inl (Exc ''IllegalCharacterError'') else Inr v)"

fun bind_value :: "pyval \<Rightarrow> exn + pyval" where
  "bind_value (PStr s) = (case check_string s of Inl e \<Rightarrow> Inl e | Inr v \<Rightarrow> Inr (PStr v))"
| "bind_value (PObj t s (Some e)) = Inl e"
| "bind_value v = Inr v"

text \<open>\<open>ws.append(r)\<close> stores the values of \<open>r\<close> from left to right; the first that is refused raises.\<close>

fun bind_row :: "pyval list \<Rightarrow> exn + pyval list" where
  "bind_row [] = Inr []"
| "bind_row (v # vs) =
     (case bind_value v of
        Inl e \<Rightarrow> Inl e
      | Inr v' \<Rightarrow> (case bind_row vs of Inl e \<Rightarrow> Inl e | Inr vs' \<Rightarrow> Inr (v' # vs')))"

fun append_rows :: "pyval list list \<Rightarrow> exn + pyval list list" where
  "append_rows [] = Inr []"
| "append_rows (r # rs) =
     (case bind_row r of
        Inl e \<Rightarrow> Inl e
      | Inr r' \<Rightarrow> (case append_rows rs of Inl e \<Rightarrow> Inl e | Inr rs' \<Rightarrow> Inr (r' # rs')))"

text \<open>
  Lines 104-106: a fresh sheet, the header row and then every data row appended
  (\<open>dataframe_to_rows(df_out, index=False, header=True)\<close>), or the exception raised by
  \<open>ws.append\<close>.
\<close>

definition sheet_of_df :: "dataframe \<Rightarrow> exn + worksheet" where
  "sheet_of_df df =
     (case append_rows (map PStr (df_columns df) # df_rows df) of
        Inl e \<Rightarrow> Inl e
      | Inr cells \<Rightarrow>
          Inr \<lparr>ws_cells = cells, ws_images = [], ws_row_heights = [], ws_col_widths = []\<rparr>)"

text \<open>\<open>ws.max_row\<close>: 1 on an empty sheet; every appended row holds a cell.\<close>

definition max_row :: "worksheet \<Rightarrow> nat" where
  "max_row ws = (if ws_cells ws = [] then 1 else length (ws_cells ws))"

text \<open>\<open>ws.cell(row=r, column=c).value\<close>, rows and columns counted from 1.\<close>

definition cell_value :: "worksheet \<Rightarrow> nat \<Rightarrow> nat \<Rightarrow> pyval" where
  "cell_value ws r c =
     (if 1 \<le> r \<and> r \<le> length (ws_cells ws) \<and> 1 \<le> c \<and> c \<le> length (ws_cells ws ! (r - 1))
      then ws_cells ws ! (r - 1) ! (c - 1) else PNone)"

text \<open>
  Assigning \<open>ws.cell(row=r, column=c).value = v\<close>. The value is stored as \<open>bind_value\<close>
  says, or the assignment raises; \<open>put_cell\<close> places the stored value, creating the
  cell when it is missing.
\<close>

definition set_in_row :: "pyval list \<Rightarrow> nat \<Rightarrow> pyval \<Rightarrow> pyval list" where
  "set_in_row row c v = (row @ replicate (c - length row) PNone)[c - 1 := v]"

definition put_cell :: "worksheet \<Rightarrow> nat \<Rightarrow> nat \<Rightarrow> pyval \<Rightarrow> worksheet" where
  "put_cell ws r c v =
     (let cells = ws_cells ws @ replicate (r - length (ws_cells ws)) []
      in ws\<lparr>ws_cells := cells[r - 1 := set_in_row (cells ! (r - 1)) c v]\<rparr>)"

definition set_cell :: "worksheet \<Rightarrow> nat \<Rightarrow> nat \<Rightarrow> pyval \<Rightarrow> exn + worksheet" where
  "set_cell ws r c v =
     (case bind_value v of Inl e \<Rightarrow> Inl e | Inr v' \<Rightarrow> Inr (put_cell ws r c v'))"

text \<open>\<open>ws.insert_cols(idx, amount=1)\<close>: the cells at column \<open>idx\<close> and beyond move one to the right.\<close>

definition insert_cols :: "nat \<Rightarrow> worksheet \<Rightarrow> worksheet" where
  "insert_cols idx ws =
     ws\<lparr>ws_cells :=
          map (\<lambda>row. if idx - 1 < length row then take (idx - 1) row @ PNone # drop (idx - 1) row
                      else row)
              (ws_cells ws)\<rparr>"

text \<open>
  The state of the row loop (lines 120-142): the network state, the requests issued so
  far, the sheet, \<open>logs\<close> (row number and status), \<open>ok\<close> and \<open>fail\<close>.
\<close>

record 'w run =
  run_world :: 'w
  run_calls :: "request list"
  run_ws :: worksheet
  run_logs :: "(nat \<times> string) list"
  run_ok :: nat
  run_fail :: nat

text \<open>Line 123: \<open>str(ws.cell(row=row_idx, column=col_thumb).value or "").strip()\<close>\<close>

definition row_url :: "worksheet \<Rightarrow> nat \<Rightarrow> nat \<Rightarrow> string" where
  "row_url ws row_idx col_thumb = py_strip (py_str (py_or (cell_value ws row_idx col_thumb) (PStr [])))"

text \<open>Line 126: \<open>fetch_image(url) if url else b""\<close>\<close>

definition row_fetch :: "'w env \<Rightarrow> 'w \<Rightarrow> string \<Rightarrow> (exn + bytes) \<times> 'w \<times> request list" where
  "row_fetch E w url = (if url \<noteq> [] then fetch_image E w (PStr url) else (Inr [], w, []))"

text \<open>The \<open>except Exception\<close> branch, lines 138-140.\<close>

definition log_error :: "'w run \<Rightarrow> nat \<Rightarrow> exn \<Rightarrow> 'w run" where
  "log_error st row_idx e =
     st\<lparr>run_fail := run_fail st + 1,
        run_logs := run_logs st @ [(row_idx - 1, ''error:'' @ exn_name e)]\<rparr>"

text \<open>
  One iteration of the loop, lines 123-140. (The progress bar of lines 141-142 is
  display only and is left out.)
\<close>

definition row_step :: "'w env \<Rightarrow> nat \<Rightarrow> nat \<Rightarrow> nat \<Rightarrow> nat \<Rightarrow> 'w run \<Rightarrow> 'w run" where
  "row_step E col_thumb col_dataurl col_img row_idx st =
     (let url = row_url (run_ws st) row_idx col_thumb in
      case row_fetch E (run_world st) url of
        (res, w', calls) \<Rightarrow>
          (let st1 = st\<lparr>run_world := w', run_calls := run_calls st @ calls\<rparr> in
           case res of
             Inl e \<Rightarrow> log_error st1 row_idx e
           | Inr img_bytes \<Rightarrow>
               if img_bytes \<noteq> [] then
                 (case set_cell (run_ws st1) row_idx col_dataurl (PStr (to_data_url E img_bytes)) of
                    Inl e \<Rightarrow> log_error st1 row_idx e
                  | Inr ws2 \<Rightarrow>
                      (let st2 = st1\<lparr>run_ws := ws2\<rparr> in
                       case to_png_thumb E img_bytes THUMB_PX of
                         Inl e \<Rightarrow> log_error st2 row_idx e
                       | Inr thumb \<Rightarrow>
                           (case xl_image E thumb of
                              Some e \<Rightarrow> log_error st2 row_idx e
                            | None \<Rightarrow>
                                st2\<lparr>run_ws := (run_ws st2)
                                       \<lparr>ws_images := ws_images (run_ws st2) @ [(thumb, row_idx, col_img)],
                                        ws_row_heights := ws_row_heights (run_ws st2) @ [(row_idx, 80)]\<rparr>,
                                    run_ok := run_ok st2 + 1,
                                    run_logs := run_logs st2 @ [(row_idx - 1, ''ok'')]\<rparr>)))
               else
                 st1\<lparr>run_fail := run_fail st1 + 1,
                     run_logs := run_logs st1 @ [(row_idx - 1, ''no-bytes'')]\<rparr>))"

text \<open>\<open>for row_idx in range(2, ws.max_row + 1)\<close>\<close>

definition row_loop :: "'w env \<Rightarrow> nat \<Rightarrow> nat \<Rightarrow> nat \<Rightarrow> nat list \<Rightarrow> 'w run \<Rightarrow> 'w run" where
  "row_loop E col_thumb col_dataurl col_img idxs st =
     fold (row_step E col_thumb col_dataurl col_img) idxs st"

text \<open>
  \<open>build_excel_with_images\<close>, up to line 143. The result is the exception raised
  before the row loop, or the sheet and the logs as they are when the loop has ended
  and \<open>wb.save\<close> is called (the serialisation itself is openpyxl's and is not
  modelled); with it come the network state and the requests issued.
\<close>

definition missing_column :: exn where
  "missing_column = ValueError (''Missing required column: '' @ [CHR 0x27] @ ''thumbnail'' @ [CHR 0x27])"

definition not_in_list :: "string \<Rightarrow> exn" where
  "not_in_list x = ValueError ([CHR 0x27] @ x @ [CHR 0x27] @ '' is not in list'')"

text \<open>Lines 97-99: the copy, cut to the first \<open>max_rows\<close> rows when \<open>max_rows\<close> is positive.\<close>

definition cap_rows :: "dataframe \<Rightarrow> int \<Rightarrow> dataframe" where
  "cap_rows df max_rows = (if max_rows \<noteq> 0 \<and> max_rows > 0 then df_head (nat max_rows) df else df)"

text \<open>Lines 101-102.\<close>

definition ensure_dataurl :: "dataframe \<Rightarrow> dataframe" where
  "ensure_dataurl df_out =
     (if ''thumbnail_dataurl'' \<notin> set (df_columns df_out)
      then df_add_column ''thumbnail_dataurl'' (PStr []) df_out else df_out)"

text \<open>
  Lines 104-115: the sheet is filled, the two columns are located in the header row,
  and the image column is inserted to the right of the data-url column. The result is
  the sheet with \<open>col_thumb\<close>, \<open>col_dataurl\<close> and \<open>col_img\<close>.
\<close>

definition prepare_sheet :: "dataframe \<Rightarrow> exn + worksheet \<times> nat \<times> nat \<times> nat" where
  "prepare_sheet df_out =
     (case sheet_of_df df_out of
        Inl e \<Rightarrow> Inl e
      | Inr ws \<Rightarrow>
          (let headers = hd (ws_cells ws)
           in case index_of headers (PStr ''thumbnail'') of
                None \<Rightarrow> Inl (not_in_list ''thumbnail'')
              | Some i \<Rightarrow>
                  (case index_of headers (PStr ''thumbnail_dataurl'') of
                     None \<Rightarrow> Inl (not_in_list ''thumbnail_dataurl'')
                   | Some j \<Rightarrow>
                       (let col_thumb = i + 1;
                            col_dataurl = j + 1;
                            ws = insert_cols (col_dataurl + 1) ws
                        in case set_cell ws 1 (col_dataurl + 1) (PStr ''thumbnail_image_embedded'') of
                             Inl e \<Rightarrow> Inl e
                           | Inr ws \<Rightarrow>
                               (let col_img = col_dataurl + 1;
                                    ws = ws\<lparr>ws_col_widths := ws_col_widths ws @ [(col_img, 18)]\<rparr>
                                in Inr (ws, col_thumb, col_dataurl, col_img))))))"

definition build_excel_with_images ::
  "'w env \<Rightarrow> 'w \<Rightarrow> dataframe \<Rightarrow> int \<Rightarrow> (exn + worksheet \<times> (nat \<times> string) list) \<times> 'w \<times> request list" where
  "build_excel_with_images E w df max_rows =
     (if ''thumbnail'' \<notin> set (df_columns df) then (Inl missing_column, w, [])
      else
        (case prepare_sheet (ensure_dataurl (cap_rows df max_rows)) of
           Inl e \<Rightarrow> (Inl e, w, [])
         | Inr (ws, col_thumb, col_dataurl, col_img) \<Rightarrow>
             (let st0 = \<lparr>run_world = w, run_calls = [], run_ws = ws, run_logs = [],
                         run_ok = 0, run_fail = 0\<rparr>;
                  st = row_loop E col_thumb col_dataurl col_img [2 ..< max_row ws + 1] st0
              in (Inr (run_ws st, run_logs st), run_world st, run_calls st))))"

section \<open>An example site\<close>

text \<open>
  A small network and imaging library to run the code on. The network state counts the
  requests served. Pillow is stood in for by the magic numbers of JPEG, PNG and GIF.
\<close>

definition demo_jpeg :: bytes where
  "demo_jpeg = [0xFF, 0xD8, 0xFF, 0xE0]"

definition demo_html :: bytes where
  "demo_html = [0x3C, 0x68, 0x3E]"

definition demo_png :: bytes where
  "demo_png = [0x89, 0x50, 0x4E, 0x47]"

definition http_ok :: "bytes \<Rightarrow> exn + response" where
  "http_ok b = Inr \<lparr>status_code = 200, content = Inr b, raw = Inr []\<rparr>"

definition demo_get :: "request \<Rightarrow> nat \<Rightarrow> (exn + response) \<times> nat" where
  "demo_get rq n =
     (let u = req_url rq in
      (if \<not> (startswith u ''http://'' \<or> startswith u ''https://'') then Inl (Exc ''MissingSchema'')
       else if u = ''https://img.example/a.jpg'' then http_ok demo_jpeg
       else if u = ''https://img.example/page.html'' then http_ok demo_html
       else if u = ''https://img.example/empty'' then http_ok []
       else if u = ''http://img.example/empty'' then Inl (Exc ''ConnectionError'')
       else Inr \<lparr>status_code = 404, content = Inr demo_html, raw = Inr []\<rparr>,
       Suc n))"

definition demo_format :: "bytes \<Rightarrow> exn + string option" where
  "demo_format b =
     (if take 3 b = [0xFF, 0xD8, 0xFF] then Inr (Some ''JPEG'')
      else if take 4 b = [0x89, 0x50, 0x4E, 0x47] then Inr (Some ''PNG'')
      else if take 3 b = [0x47, 0x49, 0x46] then Inr (Some ''GIF'')
      else if take 2 b = [0x42, 0x4D] then Inr (Some ''BMP'')
      else Inl (Exc ''UnidentifiedImageError''))"

definition demo_env :: "nat env" where
  "demo_env =
     \<lparr>http_get = demo_get,
      pil_format = demo_format,
      png_thumb = (\<lambda>b px. case demo_format b of Inl e \<Rightarrow> Inl e | Inr f \<Rightarrow> Inr demo_png),
      xl_image = (\<lambda>b. None)\<rparr>"

text \<open>A server that answers every request with one byte more than \<open>MAX_BYTES\<close>.\<close>

definition big_get :: "request \<Rightarrow> nat \<Rightarrow> (exn + response) \<times> nat" where
  "big_get rq n = (http_ok (replicate (MAX_BYTES + 1) 0), Suc n)"

definition big_env :: "nat env" where
  "big_env = demo_env\<lparr>http_get := big_get\<rparr>"

definition demo_df :: dataframe where
  "demo_df =
     \<lparr>df_columns = [''name'', ''thumbnail''],
      df_rows = [[PStr ''a'', PStr ''https://img.example/a.jpg''],
                 [PStr ''b'', PStr ''https://img.example/missing.png''],
                 [PStr ''c'', PStr ''https://img.example/page.html''],
                 [PStr ''d'', PInt 123],
                 [PStr ''e'', PNaN],
                 [PStr ''f'', PNone]]\<rparr>"

text \<open>
  A table with the \<open>thumbnail\<close> column only and one data row holding \<open>v\<close>, and the
  state in which the row loop starts on it (the header, the row, and the two added
  columns).
\<close>

definition one_row_df :: "pyval \<Rightarrow> dataframe" where
  "one_row_df v = \<lparr>df_columns = [''thumbnail''], df_rows = [[v]]\<rparr>"

definition one_row_sheet :: "pyval \<Rightarrow> worksheet" where
  "one_row_sheet v =
     \<lparr>ws_cells = [[PStr ''thumbnail'', PStr ''thumbnail_dataurl'', PStr ''thumbnail_image_embedded''],
                  [v, PStr []]],
      ws_images = [], ws_row_heights = [], ws_col_widths = [(3, 18)]\<rparr>"

definition one_row_state :: "pyval \<Rightarrow> nat run" where
  "one_row_state v =
     \<lparr>run_world = 0, run_calls = [], run_ws = one_row_sheet v, run_logs = [],
      run_ok = 0, run_fail = 0\<rparr>"

section \<open>Properties\<close>

text \<open>The definitions to unfold when the code is run on a concrete input.\<close>

lemmas demo_defs = demo_env_def demo_get_def demo_format_def http_ok_def demo_jpeg_def demo_html_def demo_png_def
lemmas fetch_defs = fetch_image_def first_get_def after_get_def fallback_body_def mk_request_def alt_url_def
       py_strip_def py_isspace_def startswith_def raise_for_status_def read_body_def bounded_def MAX_BYTES_def TIMEOUT_def
lemmas sheet_defs = build_excel_with_images_def prepare_sheet_def ensure_dataurl_def cap_rows_def df_head_def
       df_add_column_def sheet_of_df_def insert_cols_def set_cell_def put_cell_def set_in_row_def cell_value_def max_row_def
       check_string_def illegal_char_def
       row_loop_def row_step_def row_url_def row_fetch_def log_error_def py_or_def Let_def
lemmas img_defs = to_data_url_def sniff_mime_def str_upper_def upper_char_def to_png_thumb_def THUMB_PX_def
       b64_char_def b64_alphabet_def sextet1_def sextet2_def sextet3_def sextet4_def
lemmas one_row_defs = one_row_df_def one_row_sheet_def one_row_state_def

subsection \<open>Strings and the fetcher\<close>

lemma dropWhile_all: "(\<forall>x\<in>set (dropWhile P s). P x) \<longleftrightarrow> (\<forall>x\<in>set s. P x)"
  by (induction s) auto

lemma py_strip_empty_iff: "py_strip s = [] \<longleftrightarrow> list_all py_isspace s"
  by (simp add: py_strip_def list_all_iff dropWhile_all)

lemma py_strip_has_nonspace:
  assumes "py_strip s \<noteq> []"
  shows "\<not> list_all py_isspace (py_strip s)"
proof -
  let ?t = "dropWhile py_isspace (rev (dropWhile py_isspace s))"
  from assms have ne: "?t \<noteq> []" by (simp add: py_strip_def)
  then have "\<not> py_isspace (hd ?t)" by (rule hd_dropWhile)
  moreover from ne have "hd ?t \<in> set ?t" by (rule hd_in_set)
  ultimately show ?thesis by (auto simp: py_strip_def list_all_iff)
qed

lemma py_strip_idem_nonempty: "py_strip s \<noteq> [] \<Longrightarrow> py_strip (py_strip s) \<noteq> []"
  using py_strip_has_nonspace [of s] by (simp add: py_strip_empty_iff)


lemma startswith_set: "startswith u p \<Longrightarrow> set p \<subseteq> set u"
  unfolding startswith_def by (metis set_take_subset)

lemma startswith_https_not_blank:
  assumes "startswith u ''https://''"
  shows "py_strip u \<noteq> []"
proof -
  from startswith_set [OF assms] have "CHR ''h'' \<in> set u" by simp
  moreover have "\<not> py_isspace CHR ''h''" by (simp add: py_isspace_def)
  ultimately show ?thesis by (auto simp: py_strip_empty_iff list_all_iff)
qed

lemma bounded_length: "length (bounded d) \<le> MAX_BYTES"
  by (simp add: bounded_def)

lemma bounded_oversize: "MAX_BYTES < length d \<Longrightarrow> bounded d = []"
  by (simp add: bounded_def)

lemma fetch_blank: "list_all py_isspace s \<Longrightarrow> fetch_image E w (PStr s) = (Inr [], w, [])"
  by (simp add: fetch_image_def py_strip_empty_iff)

lemma fetch_image_PStr:
  "py_strip u \<noteq> [] \<Longrightarrow> first_get E w u = (res, w1, calls) \<Longrightarrow>
   fetch_image E w (PStr u) = after_get E u res w1 calls"
  by (simp add: fetch_image_def)

lemma after_get_bounded: "fst (after_get E u res w calls) = Inr d \<Longrightarrow> length d \<le> MAX_BYTES"
  by (auto simp: after_get_def Let_def bounded_length split: sum.splits option.splits if_splits prod.splits)

lemma fetch_bounded: "fst (fetch_image E w url) = Inr d \<Longrightarrow> length d \<le> MAX_BYTES"
  by (auto simp: fetch_image_def dest: after_get_bounded split: pyval.splits if_splits prod.splits)

lemma after_get_oversize:
  "raise_for_status r = None \<Longrightarrow> read_body r = Inr p \<Longrightarrow> MAX_BYTES < length p \<Longrightarrow>
   after_get E u (Inr r) w calls = (Inr [], w, calls)"
  by (auto simp: after_get_def bounded_def)

lemma after_get_http_error:
  "400 \<le> status_code r \<Longrightarrow> status_code r < 600 \<Longrightarrow>
   after_get E u (Inr r) w calls = (Inl HTTPError, w, calls)"
  by (simp add: after_get_def raise_for_status_def)

lemma after_get_fallback:
  assumes "startswith u ''https://''" "raise_for_status r = None" "read_body r = Inr []"
    and "fallback_body E (alt_url u) u w = (res2, w2)"
  shows "after_get E u (Inr r) w calls =
     (Inr (case res2 of Inl e \<Rightarrow> [] | Inr d \<Rightarrow> bounded d), w2,
      calls @ [mk_request (alt_url u) u True])"
  using assms by (simp add: after_get_def split: sum.splits)

lemma after_get_oversize_fallback:
  assumes "startswith u ''https://''" "raise_for_status r = None" "read_body r = Inr []"
    and "http_get E (mk_request (alt_url u) u True) w = (Inr r2, w2)"
    and "raise_for_status r2 = None" "read_body r2 = Inr p" "MAX_BYTES < length p"
  shows "fst (after_get E u (Inr r) w calls) = Inr []"
proof -
  from assms(4-6) have "fallback_body E (alt_url u) u w = (Inr p, w2)"
    by (simp add: fallback_body_def)
  from after_get_fallback [OF assms(1-3) this] assms(7) show ?thesis
    by (simp add: bounded_oversize)
qed



subsection \<open>Base64\<close>

lemma index_of_nth: "distinct xs \<Longrightarrow> i < length xs \<Longrightarrow> index_of xs (xs ! i) = Some i"
proof (induction xs arbitrary: i)
  case Nil
  then show ?case by simp
next
  case (Cons y ys)
  show ?case
  proof (cases i)
    case 0
    then show ?thesis by simp
  next
    case (Suc k)
    with Cons.prems have k: "k < length ys" and d: "distinct ys" and ny: "y \<notin> set ys" by auto
    from k ny have "ys ! k \<noteq> y" by (metis nth_mem)
    with Suc Cons.IH [OF d k] show ?thesis by auto
  qed
qed

lemma b64_alphabet_distinct: "distinct b64_alphabet"
  unfolding b64_alphabet_def by simp

lemma b64_alphabet_length: "length b64_alphabet = 64"
  unfolding b64_alphabet_def by simp

lemma b64_index_char: "i < 64 \<Longrightarrow> b64_index (b64_char i) = Some i"
  unfolding b64_index_def b64_char_def
  by (rule index_of_nth [OF b64_alphabet_distinct]) (simp add: b64_alphabet_length)

lemma b64_pad_not_in_alphabet: "CHR ''='' \<notin> set b64_alphabet"
  unfolding b64_alphabet_def by simp

lemma b64_char_not_pad: "i < 64 \<Longrightarrow> b64_char i \<noteq> CHR ''=''"
  unfolding b64_char_def
  by (metis b64_pad_not_in_alphabet b64_alphabet_length nth_mem)

lemma unat_byte_less: "unat (a :: byte) < 256"
  using unsigned_less [of a] by simp

lemma sextet_less:
  "sextet1 a < 64" "sextet2 a b < 64" "sextet3 b c < 64" "sextet4 c < 64"
proof -
  have "unat a < 256" "unat b < 256" "unat c < 256" by (rule unat_byte_less)+
  then show "sextet1 a < 64" "sextet2 a b < 64" "sextet3 b c < 64" "sextet4 c < 64"
    unfolding sextet1_def sextet2_def sextet3_def sextet4_def by auto
qed

lemma octet1_sextets: "octet1 (sextet1 a) (sextet2 a b) = a"
proof -
  have "unat b div 16 < 16" using unat_byte_less [of b] by simp
  then have "(unat a div 4) * 4 + ((unat a mod 4) * 16 + unat b div 16) div 16 = unat a"
    by simp
  then show ?thesis unfolding octet1_def sextet1_def sextet2_def by simp
qed

lemma octet2_sextets: "octet2 (sextet2 a b) (sextet3 b c) = b"
proof -
  have c: "unat c div 64 < 4" using unat_byte_less [of c] by simp
  have b: "unat b div 16 < 16" using unat_byte_less [of b] by simp
  from b have 1: "((unat a mod 4) * 16 + unat b div 16) mod 16 = unat b div 16"
    by simp
  from c have 2: "((unat b mod 16) * 4 + unat c div 64) div 4 = unat b mod 16"
    by simp
  have "(unat b div 16) * 16 + unat b mod 16 = unat b" by simp
  with 1 2 show ?thesis unfolding octet2_def sextet2_def sextet3_def by simp
qed

lemma octet3_sextets: "octet3 (sextet3 b c) (sextet4 c) = c"
proof -
  have c: "unat c div 64 < 4" using unat_byte_less [of c] by simp
  then have 1: "((unat b mod 16) * 4 + unat c div 64) mod 4 = unat c div 64"
    by simp
  have "(unat c div 64) * 64 + unat c mod 64 = unat c" by simp
  with 1 show ?thesis unfolding octet3_def sextet3_def sextet4_def by simp
qed

lemma sextet_pad: "sextet2 a 0 mod 16 = 0" "sextet3 b 0 mod 4 = 0"
  unfolding sextet2_def sextet3_def by simp_all


lemma b64_roundtrip: "b64decode (b64encode bs) = Some bs"
proof (induction bs rule: b64encode.induct)
  case (1 a b c rest)
  then show ?case
    by (simp add: b64_index_char sextet_less b64_char_not_pad
          octet1_sextets octet2_sextets octet3_sextets)
next
  case (2 a b)
  show ?case
    by (simp add: b64_index_char sextet_less b64_char_not_pad sextet_pad
          octet1_sextets octet2_sextets)
next
  case (3 a)
  show ?case
    by (simp add: b64_index_char sextet_less b64_char_not_pad sextet_pad octet1_sextets)
next
  case 4
  show ?case by simp
qed

subsection \<open>The sheet and the row loop\<close>

lemma set_in_row_nth:
  "1 \<le> c \<Longrightarrow> 1 \<le> c' \<Longrightarrow>
   (if c' \<le> length (set_in_row row c v) then set_in_row row c v ! (c' - 1) else PNone) =
   (if c' = c then v else if c' \<le> length row then row ! (c' - 1) else PNone)"
  by (auto simp: set_in_row_def nth_list_update nth_append)

lemma cell_value_put_cell:
  assumes "1 \<le> r" "1 \<le> c" "1 \<le> r'" "1 \<le> c'"
  shows "cell_value (put_cell ws r c v) r' c' =
         (if r' = r \<and> c' = c then v else cell_value ws r' c')"
proof -
  let ?cells = "ws_cells ws @ replicate (r - length (ws_cells ws)) []"
  have len: "r \<le> length ?cells" by simp
  have old: "\<And>k. k < length ?cells \<Longrightarrow>
      (if c' \<le> length (?cells ! k) then ?cells ! k ! (c' - 1) else PNone) =
      (if k < length (ws_cells ws) \<and> c' \<le> length (ws_cells ws ! k) then ws_cells ws ! k ! (c' - 1) else PNone)"
    using assms by (auto simp: nth_append)
  show ?thesis
  proof (cases "r' = r")
    case True
    with assms len set_in_row_nth [OF assms(2,4), of "?cells ! (r - 1)" v] old [of "r - 1"]
    show ?thesis
      by (auto simp: cell_value_def put_cell_def Let_def simp del: replicate.simps split: if_splits)
  next
    case False
    with assms len old [of "r' - 1"] show ?thesis
      by (auto simp: cell_value_def put_cell_def Let_def nth_list_update nth_append split: if_splits)
  qed
qed

lemma row_step_error:
  "row_fetch E (run_world st) (row_url (run_ws st) r ct) = (Inl e, w', calls) \<Longrightarrow>
   row_step E ct cd ci r st =
     st\<lparr>run_world := w', run_calls := run_calls st @ calls, run_fail := run_fail st + 1,
        run_logs := run_logs st @ [(r - 1, ''error:'' @ exn_name e)]\<rparr>"
  by (simp add: row_step_def log_error_def)

lemma row_step_empty:
  "row_fetch E (run_world st) (row_url (run_ws st) r ct) = (Inr [], w', calls) \<Longrightarrow>
   row_step E ct cd ci r st =
     st\<lparr>run_world := w', run_calls := run_calls st @ calls, run_fail := run_fail st + 1,
        run_logs := run_logs st @ [(r - 1, ''no-bytes'')]\<rparr>"
  by (simp add: row_step_def)

lemma put_cell_images: "ws_images (put_cell ws r c v) = ws_images ws"
  by (simp add: put_cell_def Let_def)

lemma set_cell_images: "set_cell ws r c v = Inr ws' \<Longrightarrow> ws_images ws' = ws_images ws"
  by (auto simp: set_cell_def put_cell_images split: sum.splits)

lemma row_step_logs:
  "\<exists>s. run_logs (row_step E ct cd ci r st) = run_logs st @ [(r - 1, s)] \<and>
       (s = ''ok'' \<or> s = ''no-bytes'' \<or> (\<exists>e. s = ''error:'' @ exn_name e))"
  by (auto simp: row_step_def log_error_def Let_def split: prod.splits sum.splits option.splits)

lemma row_loop_logs:
  "\<exists>ss. run_logs (row_loop E ct cd ci idxs st) = run_logs st @ zip (map (\<lambda>r. r - 1) idxs) ss \<and>
        length ss = length idxs \<and>
        (\<forall>s\<in>set ss. s = ''ok'' \<or> s = ''no-bytes'' \<or> (\<exists>e. s = ''error:'' @ exn_name e))"
proof (induction idxs arbitrary: st)
  case Nil
  show ?case by (simp add: row_loop_def)
next
  case (Cons r rs)
  obtain s where s: "run_logs (row_step E ct cd ci r st) = run_logs st @ [(r - 1, s)]"
    and v: "s = ''ok'' \<or> s = ''no-bytes'' \<or> (\<exists>e. s = ''error:'' @ exn_name e)"
    using row_step_logs by blast
  from Cons.IH [of "row_step E ct cd ci r st"] obtain ss where
    ss: "run_logs (row_loop E ct cd ci rs (row_step E ct cd ci r st)) =
           run_logs (row_step E ct cd ci r st) @ zip (map (\<lambda>r. r - 1) rs) ss"
    and l: "length ss = length rs"
    and vs: "\<forall>s\<in>set ss. s = ''ok'' \<or> s = ''no-bytes'' \<or> (\<exists>e. s = ''error:'' @ exn_name e)"
    by blast
  have "run_logs (row_loop E ct cd ci (r # rs) st) = run_logs st @ zip (map (\<lambda>r. r - 1) (r # rs)) (s # ss)"
    using s ss by (simp add: row_loop_def)
  moreover have "length (s # ss) = length (r # rs)" using l by simp
  moreover have "\<forall>x\<in>set (s # ss). x = ''ok'' \<or> x = ''no-bytes'' \<or> (\<exists>e. x = ''error:'' @ exn_name e)"
    using v vs by auto
  ultimately show ?case by blast
qed

lemma index_of_mem: "x \<in> set xs \<Longrightarrow> \<exists>i. index_of xs x = Some i"
  by (induction xs) auto

lemma map_pred_upt: "map (\<lambda>r. r - 1) [2 ..< n + 2] = [1 ..< Suc n]"
  by (induction n) auto

lemma put_cell_length:
  "1 \<le> r \<Longrightarrow> r \<le> length (ws_cells ws) \<Longrightarrow> length (ws_cells (put_cell ws r c v)) = length (ws_cells ws)"
  by (simp add: put_cell_def Let_def)

lemma insert_cols_length: "length (ws_cells (insert_cols idx ws)) = length (ws_cells ws)"
  by (simp add: insert_cols_def)

lemma append_rows_length: "append_rows rs = Inr cells \<Longrightarrow> length cells = length rs"
  by (induction rs arbitrary: cells) (auto split: sum.splits)

lemma sheet_of_df_length:
  "sheet_of_df d = Inr ws \<Longrightarrow> length (ws_cells ws) = Suc (length (df_rows d))"
  by (auto simp: sheet_of_df_def split: sum.splits dest: append_rows_length)

lemma prepared_rows:
  "length (df_rows (ensure_dataurl (cap_rows df max_rows))) =
     (if 0 < max_rows then min (nat max_rows) (length (df_rows df)) else length (df_rows df))"
  by (auto simp: ensure_dataurl_def cap_rows_def df_head_def df_add_column_def)

lemma prepare_sheet_rows:
  assumes "prepare_sheet d = Inr (ws, ct, cd, ci)"
  shows "max_row ws = Suc (length (df_rows d))"
proof -
  from assms obtain ws0 j ws1 where s: "sheet_of_df d = Inr ws0"
    and c: "set_cell (insert_cols (j + 1 + 1) ws0) 1 (j + 1 + 1) (PStr ''thumbnail_image_embedded'') = Inr ws1"
    and w: "ws = ws1\<lparr>ws_col_widths := ws_col_widths ws1 @ [(j + 1 + 1, 18)]\<rparr>"
    by (auto simp: prepare_sheet_def Let_def split: sum.splits option.splits)
  from c obtain v where "ws1 = put_cell (insert_cols (j + 1 + 1) ws0) 1 (j + 1 + 1) v"
    by (auto simp: set_cell_def split: sum.splits)
  then have "length (ws_cells ws1) = length (ws_cells ws0)"
    using sheet_of_df_length [OF s] by (simp add: put_cell_length insert_cols_length)
  with w sheet_of_df_length [OF s] show ?thesis by (auto simp: max_row_def)
qed

lemma build_run:
  assumes "build_excel_with_images E w df max_rows = (Inr (ws, logs), w', calls)"
  shows "\<exists>ct cd ci ws0.
     build_excel_with_images E w df max_rows =
       (let st = row_loop E ct cd ci
                   [2 ..< (if 0 < max_rows then min (nat max_rows) (length (df_rows df))
                           else length (df_rows df)) + 2]
                   \<lparr>run_world = w, run_calls = [], run_ws = ws0, run_logs = [],
                    run_ok = 0, run_fail = 0\<rparr>
        in (Inr (run_ws st, run_logs st), run_world st, run_calls st))"
proof -
  from assms obtain ws0 ct cd ci where
    p: "prepare_sheet (ensure_dataurl (cap_rows df max_rows)) = Inr (ws0, ct, cd, ci)"
    by (auto simp: build_excel_with_images_def split: if_splits sum.splits)
  from prepare_sheet_rows [OF p] have m': "max_row ws0 + 1 =
      (if 0 < max_rows then min (nat max_rows) (length (df_rows df)) else length (df_rows df)) + 2"
    by (simp add: prepared_rows)
  from assms have th: "''thumbnail'' \<in> set (df_columns df)"
    by (auto simp: build_excel_with_images_def split: if_splits)
  have "build_excel_with_images E w df max_rows =
       (let st = row_loop E ct cd ci
                   [2 ..< (if 0 < max_rows then min (nat max_rows) (length (df_rows df))
                           else length (df_rows df)) + 2]
                   \<lparr>run_world = w, run_calls = [], run_ws = ws0, run_logs = [],
                    run_ok = 0, run_fail = 0\<rparr>
        in (Inr (run_ws st, run_logs st), run_world st, run_calls st))"
    by (simp only: build_excel_with_images_def p sum.case prod.case th not_True_eq_False if_False Let_def m')
  then show ?thesis
    by (intro exI)
qed

section \<open>The claims\<close>

subsection \<open>The fetcher\<close>

text \<open>
  Claim C10. For every string made of whitespace characters only, \<open>fetch_image\<close> returns
  the empty result, leaves the network state as it was and issues no request, exactly as
  for the empty string.
\<close>

theorem fetch_image_whitespace:
  "list_all py_isspace s \<Longrightarrow>
   fetch_image E w (PStr s) = (Inr [], w, []) \<and>
   fetch_image E w (PStr s) = fetch_image E w (PStr [])"
proof -
  assume "list_all py_isspace s"
  then have "fetch_image E w (PStr s) = (Inr [], w, [])" by (rule fetch_blank)
  moreover have "fetch_image E w (PStr []) = (Inr [], w, [])" by (rule fetch_blank) simp
  ultimately show ?thesis by simp
qed

theorem fetch_image_whitespace_witness:
  "list_all py_isspace [CHR '' '', CHR 0x09, CHR 0x0A, CHR 0x0D, CHR 0xA0] \<and>
   fetch_image demo_env 0 (PStr [CHR '' '', CHR 0x09, CHR 0x0A, CHR 0x0D, CHR 0xA0]) = (Inr [], 0, []) \<and>
   fetch_image demo_env 0 (PStr []) = (Inr [], 0, [])"
proof -
  have h: "list_all py_isspace [CHR '' '', CHR 0x09, CHR 0x0A, CHR 0x0D, CHR 0xA0]"
    by (simp add: py_isspace_def)
  from fetch_image_whitespace [OF h, of demo_env 0] h show ?thesis by auto
qed

lemma big_first_get:
  "first_get big_env 0 ''https://img.example/big.jpg'' =
     (http_ok (replicate (MAX_BYTES + 1) 0), 1,
      [mk_request ''https://img.example/big.jpg'' ''https://img.example/big.jpg'' True])"
  by (simp add: first_get_def big_env_def big_get_def http_ok_def)

lemma big_body:
  "raise_for_status \<lparr>status_code = 200, content = Inr (replicate (MAX_BYTES + 1) 0), raw = Inr []\<rparr> = None"
  "read_body \<lparr>status_code = 200, content = Inr (replicate (MAX_BYTES + 1) 0), raw = Inr []\<rparr> =
     Inr (replicate (MAX_BYTES + 1) 0)"
  by (simp_all add: raise_for_status_def read_body_def)

text \<open>
  Claim C4. Whatever \<open>fetch_image\<close> returns is at most \<open>MAX_BYTES\<close> long; and a
  payload longer than \<open>MAX_BYTES\<close>, read from the response of the first GET (direct or
  after the unverified retry) or from the response of the \<open>http://\<close> fallback, yields
  the empty result.
\<close>

theorem fetch_image_max_bytes:
  "(fst (fetch_image E w url) = Inr d \<longrightarrow> length d \<le> MAX_BYTES) \<and>
   (py_strip u \<noteq> [] \<and> first_get E w u = (Inr r, w1, calls) \<and> raise_for_status r = None \<and>
    read_body r = Inr p \<and> MAX_BYTES < length p \<longrightarrow>
      fetch_image E w (PStr u) = (Inr [], w1, calls)) \<and>
   (startswith u ''https://'' \<and> first_get E w u = (Inr r, w1, calls) \<and> raise_for_status r = None \<and>
    read_body r = Inr [] \<and> http_get E (mk_request (alt_url u) u True) w1 = (Inr r2, w2) \<and>
    raise_for_status r2 = None \<and> read_body r2 = Inr p \<and> MAX_BYTES < length p \<longrightarrow>
      fst (fetch_image E w (PStr u)) = Inr [])"
proof (intro conjI impI)
  assume "fst (fetch_image E w url) = Inr d"
  then show "length d \<le> MAX_BYTES" by (rule fetch_bounded)
next
  assume a: "py_strip u \<noteq> [] \<and> first_get E w u = (Inr r, w1, calls) \<and> raise_for_status r = None \<and>
    read_body r = Inr p \<and> MAX_BYTES < length p"
  then have "fetch_image E w (PStr u) = after_get E u (Inr r) w1 calls"
    by (simp add: fetch_image_PStr)
  with a show "fetch_image E w (PStr u) = (Inr [], w1, calls)"
    by (simp add: after_get_oversize)
next
  assume a: "startswith u ''https://'' \<and> first_get E w u = (Inr r, w1, calls) \<and> raise_for_status r = None \<and>
    read_body r = Inr [] \<and> http_get E (mk_request (alt_url u) u True) w1 = (Inr r2, w2) \<and>
    raise_for_status r2 = None \<and> read_body r2 = Inr p \<and> MAX_BYTES < length p"
  then have "fetch_image E w (PStr u) = after_get E u (Inr r) w1 calls"
    by (simp add: fetch_image_PStr startswith_https_not_blank)
  with a show "fst (fetch_image E w (PStr u)) = Inr []"
    by (simp add: after_get_oversize_fallback)
qed

theorem fetch_image_max_bytes_witness:
  "py_strip ''https://img.example/big.jpg'' \<noteq> [] \<and>
   first_get big_env 0 ''https://img.example/big.jpg'' =
     (Inr \<lparr>status_code = 200, content = Inr (replicate (MAX_BYTES + 1) 0), raw = Inr []\<rparr>, 1,
      [mk_request ''https://img.example/big.jpg'' ''https://img.example/big.jpg'' True]) \<and>
   MAX_BYTES < length (replicate (MAX_BYTES + 1) (0 :: byte)) \<and>
   fetch_image big_env 0 (PStr ''https://img.example/big.jpg'') =
     (Inr [], 1, [mk_request ''https://img.example/big.jpg'' ''https://img.example/big.jpg'' True]) \<and>
   length ([] :: bytes) \<le> MAX_BYTES"
proof -
  have s: "py_strip ''https://img.example/big.jpg'' \<noteq> []"
    by (simp add: py_strip_def py_isspace_def)
  have g: "first_get big_env 0 ''https://img.example/big.jpg'' =
     (Inr \<lparr>status_code = 200, content = Inr (replicate (MAX_BYTES + 1) 0), raw = Inr []\<rparr>, 1,
      [mk_request ''https://img.example/big.jpg'' ''https://img.example/big.jpg'' True])"
    using big_first_get by (simp add: http_ok_def)
  have l: "MAX_BYTES < length (replicate (MAX_BYTES + 1) (0 :: byte))" by simp
  from fetch_image_max_bytes [of big_env 0 "PStr ''https://img.example/big.jpg''" "[]"
      "''https://img.example/big.jpg''" _ 1 _ "replicate (MAX_BYTES + 1) 0"] s g l big_body
  show ?thesis by simp
qed




subsection \<open>The sheet builder\<close>

text \<open>
  Claim C2. Whenever the sheet builder returns, its log holds exactly one entry per
  processed data row: the row numbers are 1, 2, ..., k in this order, where k is the
  number of rows of the table, or the smaller of that number and \<open>max_rows\<close> when
  \<open>max_rows\<close> is positive; and every status is \<open>ok\<close>, \<open>no-bytes\<close> or \<open>error:\<close>
  followed by the name of an exception class.
\<close>

theorem build_logs_one_per_row:
  assumes "build_excel_with_images E w df max_rows = (Inr (ws, logs), w', calls)"
  shows "map fst logs = [1 ..< Suc (if 0 < max_rows then min (nat max_rows) (length (df_rows df))
                                    else length (df_rows df))] \<and>
     (\<forall>s\<in>set (map snd logs). s = ''ok'' \<or> s = ''no-bytes'' \<or> (\<exists>e. s = ''error:'' @ exn_name e))"
proof -
  define k where "k = (if 0 < max_rows then min (nat max_rows) (length (df_rows df))
                                 else length (df_rows df))"
  from build_run [OF assms] obtain ct cd ci ws0 where
    b: "build_excel_with_images E w df max_rows =
       (let st = row_loop E ct cd ci [2 ..< k + 2]
                   \<lparr>run_world = w, run_calls = [], run_ws = ws0, run_logs = [],
                    run_ok = 0, run_fail = 0\<rparr>
        in (Inr (run_ws st, run_logs st), run_world st, run_calls st))"
    unfolding k_def by blast
  define st0 :: "'a run" where "st0 = \<lparr>run_world = w, run_calls = [], run_ws = ws0, run_logs = [],
                    run_ok = 0, run_fail = 0\<rparr>"
  define st where "st = row_loop E ct cd ci [2 ..< k + 2] st0"
  have e: "run_logs st0 = []" by (simp add: st0_def)
  from row_loop_logs [of E ct cd ci "[2 ..< k + 2]" st0] obtain ss where
    l0: "run_logs st = run_logs st0 @ zip (map (\<lambda>r. r - 1) [2 ..< k + 2]) ss"
    and n0: "length ss = length [2 ..< k + 2]"
    and v: "\<forall>s\<in>set ss. s = ''ok'' \<or> s = ''no-bytes'' \<or> (\<exists>e. s = ''error:'' @ exn_name e)"
    unfolding st_def by blast
  from n0 have n: "length ss = k" by (simp only: length_upt)
  from l0 have l: "run_logs st = zip [1 ..< Suc k] ss"
    by (simp only: map_pred_upt e append_Nil)
  from b have "build_excel_with_images E w df max_rows =
      (Inr (run_ws st, run_logs st), run_world st, run_calls st)"
    by (simp only: Let_def st_def st0_def)
  with assms have g: "logs = run_logs st" by simp
  from l n have f: "map fst logs = [1 ..< Suc k]" unfolding g by simp
  from l n have s: "map snd logs = ss" unfolding g by simp
  show ?thesis
    unfolding k_def [symmetric] s using f v by blast
qed

lemma demo_build_capped:
  "build_excel_with_images demo_env 0
     \<lparr>df_columns = [''thumbnail''],
      df_rows = [[PStr ''https://img.example/missing.png''], [PNone]]\<rparr> 1 =
     (Inr (one_row_sheet (PStr ''https://img.example/missing.png''), [(1, ''error:HTTPError'')]), 1,
      [mk_request ''https://img.example/missing.png'' ''https://img.example/missing.png'' True])"
  by (simp add: one_row_defs sheet_defs demo_defs fetch_defs)

theorem build_logs_one_per_row_witness:
  "build_excel_with_images demo_env 0
     \<lparr>df_columns = [''thumbnail''],
      df_rows = [[PStr ''https://img.example/missing.png''], [PNone]]\<rparr> 1 =
     (Inr (one_row_sheet (PStr ''https://img.example/missing.png''), [(1, ''error:HTTPError'')]), 1,
      [mk_request ''https://img.example/missing.png'' ''https://img.example/missing.png'' True]) \<and>
   map fst [(1 :: nat, ''error:HTTPError'')] =
     [1 ..< Suc (min (nat 1) (length [[PStr ''https://img.example/missing.png''], [PNone]]))]"
proof -
  from build_logs_one_per_row [OF demo_build_capped] demo_build_capped
  show ?thesis by simp
qed

text \<open>
  Claim C7. For every table without a \<open>thumbnail\<close> column, the sheet builder raises
  \<open>ValueError("Missing required column: 'thumbnail'")\<close> at once: no sheet and no log
  are produced, the network state is untouched and no request is issued.
\<close>

theorem build_missing_thumbnail:
  "''thumbnail'' \<notin> set (df_columns df) \<Longrightarrow>
   build_excel_with_images E w df max_rows = (Inl missing_column, w, []) \<and>
   exn_name missing_column = ''ValueError''"
  by (simp add: build_excel_with_images_def missing_column_def)

theorem build_missing_thumbnail_witness:
  "''thumbnail'' \<notin> set (df_columns (demo_df\<lparr>df_columns := [''name'', ''thumb'']\<rparr>)) \<and>
   build_excel_with_images demo_env 0 (demo_df\<lparr>df_columns := [''name'', ''thumb'']\<rparr>) 0 =
     (Inl missing_column, 0, [])"
proof -
  have h: "''thumbnail'' \<notin> set (df_columns (demo_df\<lparr>df_columns := [''name'', ''thumb'']\<rparr>))"
    by simp
  from build_missing_thumbnail [OF h, of demo_env 0 0] h show ?thesis by simp
qed

subsection \<open>One row of the loop\<close>

lemma cell_value_images_update:
  "cell_value (ws\<lparr>ws_images := i, ws_row_heights := h\<rparr>) r c = cell_value ws r c"
  by (simp add: cell_value_def)

lemma row_step_frame:
  assumes "1 \<le> r" "1 \<le> cd" "1 \<le> r'" "1 \<le> c'" "r' \<noteq> r \<or> c' \<noteq> cd"
  shows "cell_value (run_ws (row_step E ct cd ci r st)) r' c' = cell_value (run_ws st) r' c'"
  using assms
  by (auto simp: row_step_def log_error_def Let_def cell_value_images_update cell_value_put_cell
           set_cell_def split: prod.splits sum.splits option.splits)

lemma row_step_no_image:
  "snd (last (run_logs (row_step E ct cd ci r st))) \<noteq> ''ok'' \<Longrightarrow>
   ws_images (run_ws (row_step E ct cd ci r st)) = ws_images (run_ws st)"
  by (auto simp: row_step_def log_error_def Let_def dest: set_cell_images
           split: prod.splits sum.splits option.splits if_splits)

lemma row_step_fetch_failed:
  "fst (row_fetch E (run_world st) (row_url (run_ws st) r ct)) = Inr [] \<or>
   (\<exists>e. fst (row_fetch E (run_world st) (row_url (run_ws st) r ct)) = Inl e) \<Longrightarrow>
   run_ws (row_step E ct cd ci r st) = run_ws st"
  by (auto simp: row_step_def log_error_def Let_def split: prod.splits sum.splits)

lemma row_fetch_nonblank:
  assumes "row_url ws r ct = u" "u \<noteq> []"
  shows "row_fetch E w u = fetch_image E w (PStr u)" "py_strip u \<noteq> []"
proof -
  show "row_fetch E w u = fetch_image E w (PStr u)" using assms by (simp add: row_fetch_def)
  from assms have "py_strip (py_str (py_or (cell_value ws r ct) (PStr []))) \<noteq> []"
    by (simp add: row_url_def)
  from py_strip_idem_nonempty [OF this] assms show "py_strip u \<noteq> []"
    by (simp add: row_url_def)
qed

text \<open>
  Claim C1, as the code has it. For every row whose URL is not blank and whose first GET
  (direct, or repeated without verification after an \<open>SSLError\<close>) returns a 4xx or 5xx
  status, \<open>fetch_image\<close> raises \<open>HTTPError\<close> (there is no fetch result), and the row's
  iteration leaves the sheet as it was, counts a failure and logs the status
  \<open>error:HTTPError\<close>.
\<close>

theorem http_error_status_row:
  assumes url: "row_url (run_ws st) r ct = u" "u \<noteq> []"
    and get: "first_get E (run_world st) u = (Inr resp, w1, calls)"
    and status: "400 \<le> status_code resp" "status_code resp < 600"
  shows "fetch_image E (run_world st) (PStr u) = (Inl HTTPError, w1, calls) \<and>
     row_step E ct cd ci r st =
       st\<lparr>run_world := w1, run_calls := run_calls st @ calls, run_fail := run_fail st + 1,
          run_logs := run_logs st @ [(r - 1, ''error:HTTPError'')]\<rparr>"
proof -
  note rf = row_fetch_nonblank [OF url]
  have f: "fetch_image E (run_world st) (PStr u) = (Inl HTTPError, w1, calls)"
    using fetch_image_PStr [OF rf(2) get] after_get_http_error [OF status] by simp
  have "row_fetch E (run_world st) (row_url (run_ws st) r ct) = (Inl HTTPError, w1, calls)"
    unfolding url(1) rf(1) by (rule f)
  from row_step_error [OF this] f show ?thesis by simp
qed

theorem http_error_status_row_witness:
  "row_url (run_ws (one_row_state (PStr ''https://img.example/missing.png''))) 2 1 =
     ''https://img.example/missing.png'' \<and>
   first_get demo_env 0 ''https://img.example/missing.png'' =
     (Inr \<lparr>status_code = 404, content = Inr demo_html, raw = Inr []\<rparr>, 1,
      [mk_request ''https://img.example/missing.png'' ''https://img.example/missing.png'' True]) \<and>
   fetch_image demo_env 0 (PStr ''https://img.example/missing.png'') =
     (Inl HTTPError, 1,
      [mk_request ''https://img.example/missing.png'' ''https://img.example/missing.png'' True]) \<and>
   run_logs (row_step demo_env 1 2 3 2 (one_row_state (PStr ''https://img.example/missing.png''))) =
     [(1, ''error:HTTPError'')] \<and>
   run_ws (row_step demo_env 1 2 3 2 (one_row_state (PStr ''https://img.example/missing.png''))) =
     one_row_sheet (PStr ''https://img.example/missing.png'')"
proof -
  let ?st = "one_row_state (PStr ''https://img.example/missing.png'')"
  have h1: "row_url (run_ws ?st) 2 1 = ''https://img.example/missing.png''"
    by (simp add: one_row_defs row_url_def cell_value_def py_or_def py_strip_def py_isspace_def)
  have h2: "''https://img.example/missing.png'' \<noteq> []" by simp
  have h3: "first_get demo_env (run_world ?st) ''https://img.example/missing.png'' =
     (Inr \<lparr>status_code = 404, content = Inr demo_html, raw = Inr []\<rparr>, 1,
      [mk_request ''https://img.example/missing.png'' ''https://img.example/missing.png'' True])"
    by (simp add: one_row_defs first_get_def demo_env_def demo_get_def mk_request_def startswith_def)
  have h4: "400 \<le> status_code \<lparr>status_code = 404, content = Inr demo_html, raw = Inr []\<rparr>"
    and h5: "status_code \<lparr>status_code = 404, content = Inr demo_html, raw = Inr []\<rparr> < 600"
    by simp_all
  have w: "run_world ?st = 0" by (simp add: one_row_defs)
  from http_error_status_row [OF h1 h2 h3 h4 h5, of 2 3] h1 h3
  show ?thesis by (simp add: w) (simp add: one_row_defs)
qed

text \<open>
  Claim C1 as stated (empty fetch result and status \<open>no-bytes\<close>) fails on a URL that
  answers 404: \<open>raise_for_status\<close> raises, and the row is logged as
  \<open>error:HTTPError\<close>.
\<close>

theorem http_404_counterexample:
  "fetch_image demo_env 0 (PStr ''https://img.example/missing.png'') =
     (Inl HTTPError, 1,
      [mk_request ''https://img.example/missing.png'' ''https://img.example/missing.png'' True]) \<and>
   build_excel_with_images demo_env 0 (one_row_df (PStr ''https://img.example/missing.png'')) 0 =
     (Inr (one_row_sheet (PStr ''https://img.example/missing.png''), [(1, ''error:HTTPError'')]), 1,
      [mk_request ''https://img.example/missing.png'' ''https://img.example/missing.png'' True]) \<and>
   ''error:HTTPError'' \<noteq> ''no-bytes''"
  by (simp add: one_row_defs sheet_defs demo_defs fetch_defs)

lemma demo_fetch_404:
  "row_fetch demo_env 0 (row_url (one_row_sheet (PStr ''https://img.example/missing.png'')) 2 1) =
     (Inl HTTPError, 1,
      [mk_request ''https://img.example/missing.png'' ''https://img.example/missing.png'' True])"
  by (simp add: one_row_defs row_url_def row_fetch_def cell_value_def py_or_def demo_defs fetch_defs)

lemma demo_step_404:
  "row_step demo_env 1 2 3 2 (one_row_state (PStr ''https://img.example/missing.png'')) =
     (one_row_state (PStr ''https://img.example/missing.png''))
       \<lparr>run_world := 1,
        run_calls := [mk_request ''https://img.example/missing.png'' ''https://img.example/missing.png'' True],
        run_fail := 1, run_logs := [(1, ''error:HTTPError'')]\<rparr>"
  by (simp add: one_row_defs sheet_defs demo_defs fetch_defs)

text \<open>
  Claim C3, as the code has it. In one iteration of the row loop, from any state:
  when the fetch yields an empty result or raises, the sheet is left as it was (the row's
  data-url cell included); whenever the logged status is not \<open>ok\<close>, no image is
  embedded; no cell other than the row's data-url cell is ever written; and exactly one
  log entry, numbered \<open>row_idx - 1\<close>, is appended. The loop, over any row indices and
  from any state, appends one entry per index in the order of the indices: no row is
  skipped or reordered, and nothing raised inside an iteration keeps the next one from
  running.
\<close>

theorem row_failure_frame:
  "(fst (row_fetch E (run_world st) (row_url (run_ws st) r ct)) = Inr [] \<or>
    (\<exists>e. fst (row_fetch E (run_world st) (row_url (run_ws st) r ct)) = Inl e) \<longrightarrow>
      run_ws (row_step E ct cd ci r st) = run_ws st) \<and>
   (snd (last (run_logs (row_step E ct cd ci r st))) \<noteq> ''ok'' \<longrightarrow>
      ws_images (run_ws (row_step E ct cd ci r st)) = ws_images (run_ws st)) \<and>
   (1 \<le> r \<and> 1 \<le> cd \<and> 1 \<le> r' \<and> 1 \<le> c' \<and> (r' \<noteq> r \<or> c' \<noteq> cd) \<longrightarrow>
      cell_value (run_ws (row_step E ct cd ci r st)) r' c' = cell_value (run_ws st) r' c') \<and>
   (\<exists>s. run_logs (row_step E ct cd ci r st) = run_logs st @ [(r - 1, s)]) \<and>
   (\<exists>ss. run_logs (row_loop E ct cd ci idxs st) = run_logs st @ zip (map (\<lambda>r. r - 1) idxs) ss \<and>
         length ss = length idxs)"
proof (intro conjI impI)
  assume "fst (row_fetch E (run_world st) (row_url (run_ws st) r ct)) = Inr [] \<or>
    (\<exists>e. fst (row_fetch E (run_world st) (row_url (run_ws st) r ct)) = Inl e)"
  then show "run_ws (row_step E ct cd ci r st) = run_ws st" by (rule row_step_fetch_failed)
next
  assume "snd (last (run_logs (row_step E ct cd ci r st))) \<noteq> ''ok''"
  then show "ws_images (run_ws (row_step E ct cd ci r st)) = ws_images (run_ws st)"
    by (rule row_step_no_image)
next
  assume "1 \<le> r \<and> 1 \<le> cd \<and> 1 \<le> r' \<and> 1 \<le> c' \<and> (r' \<noteq> r \<or> c' \<noteq> cd)"
  then show "cell_value (run_ws (row_step E ct cd ci r st)) r' c' = cell_value (run_ws st) r' c'"
    by (simp add: row_step_frame)
next
  show "\<exists>s. run_logs (row_step E ct cd ci r st) = run_logs st @ [(r - 1, s)]"
    using row_step_logs [of E ct cd ci r st] by blast
next
  show "\<exists>ss. run_logs (row_loop E ct cd ci idxs st) = run_logs st @ zip (map (\<lambda>r. r - 1) idxs) ss \<and>
         length ss = length idxs"
    using row_loop_logs [of E ct cd ci idxs st] by blast
qed

theorem row_failure_frame_witness:
  "fst (row_fetch demo_env 0 (row_url (one_row_sheet (PStr ''https://img.example/missing.png'')) 2 1)) =
     Inl HTTPError \<and>
   run_logs (row_step demo_env 1 2 3 2 (one_row_state (PStr ''https://img.example/missing.png''))) =
     [(1, ''error:HTTPError'')] \<and>
   run_ws (row_step demo_env 1 2 3 2 (one_row_state (PStr ''https://img.example/missing.png''))) =
     one_row_sheet (PStr ''https://img.example/missing.png'') \<and>
   ws_images (run_ws (row_step demo_env 1 2 3 2 (one_row_state (PStr ''https://img.example/missing.png'')))) = [] \<and>
   cell_value (run_ws (row_step demo_env 1 2 3 2 (one_row_state (PStr ''https://img.example/missing.png'')))) 2 1 =
     PStr ''https://img.example/missing.png''"
proof -
  let ?v = "PStr ''https://img.example/missing.png''"
  have w: "run_world (one_row_state ?v) = 0" "run_ws (one_row_state ?v) = one_row_sheet ?v"
    "run_logs (one_row_state ?v) = []"
    by (simp_all add: one_row_state_def)
  have h1: "fst (row_fetch demo_env 0 (row_url (one_row_sheet ?v) 2 1)) = Inl HTTPError"
    by (simp only: demo_fetch_404 fst_conv)
  have h2: "snd (last (run_logs (row_step demo_env 1 2 3 2 (one_row_state ?v)))) \<noteq> ''ok''"
    unfolding demo_step_404 by simp
  have i: "ws_images (one_row_sheet ?v) = []" "cell_value (one_row_sheet ?v) 2 1 = ?v"
    by (simp_all add: one_row_sheet_def cell_value_def)
  have l: "run_logs (row_step demo_env 1 2 3 2 (one_row_state ?v)) = [(1, ''error:HTTPError'')]"
    unfolding demo_step_404 by simp
  from row_failure_frame [of demo_env "one_row_state ?v" 2 1 2 3 2 1 "[]"] h1 h2 l i
  show ?thesis unfolding w by simp
qed

text \<open>
  Claim C3 as stated (the data-url cell is unchanged whenever an exception is raised)
  fails when the bytes are fetched but are not an image: line 128 writes the data URL
  before \<open>to_png_thumb\<close> raises at line 129, so the row is logged as an error and its
  cell, empty before, holds the data URL.
\<close>

theorem thumbnail_failure_counterexample:
  "fetch_image demo_env 0 (PStr ''https://img.example/page.html'') =
     (Inr demo_html, 1,
      [mk_request ''https://img.example/page.html'' ''https://img.example/page.html'' True]) \<and>
   to_png_thumb demo_env demo_html THUMB_PX = Inl (Exc ''UnidentifiedImageError'') \<and>
   cell_value (one_row_sheet (PStr ''https://img.example/page.html'')) 2 2 = PStr [] \<and>
   build_excel_with_images demo_env 0 (one_row_df (PStr ''https://img.example/page.html'')) 0 =
     (Inr (\<lparr>ws_cells = [[PStr ''thumbnail'', PStr ''thumbnail_dataurl'', PStr ''thumbnail_image_embedded''],
                         [PStr ''https://img.example/page.html'', PStr ''data:image/png;base64,PGg+'']],
             ws_images = [], ws_row_heights = [], ws_col_widths = [(3, 18)]\<rparr>,
           [(1, ''error:UnidentifiedImageError'')]), 1,
      [mk_request ''https://img.example/page.html'' ''https://img.example/page.html'' True]) \<and>
   PStr ''data:image/png;base64,PGg+'' \<noteq> PStr []"
  by (simp add: one_row_defs sheet_defs demo_defs fetch_defs img_defs)

lemma fetch_non_str: "\<forall>s. v \<noteq> PStr s \<Longrightarrow> fetch_image E w v = (Inr [], w, [])"
  by (cases v) (simp_all add: fetch_image_def)

lemma row_url_blank:
  assumes "\<not> py_truthy c \<or> (\<exists>s. c = PStr s \<and> list_all py_isspace s)"
  shows "py_strip (py_str (py_or c (PStr []))) = []"
proof (cases "py_truthy c")
  case False
  then show ?thesis by (simp add: py_or_def py_strip_def)
next
  case True
  with assms obtain s where "c = PStr s" "list_all py_isspace s" by auto
  with True show ?thesis by (simp add: py_or_def py_strip_empty_iff)
qed

text \<open>
  Claim C8, as the code has it. \<open>fetch_image\<close> returns the empty result and issues no
  request for every argument that is not a \<open>str\<close> and for every blank \<open>str\<close>. In the
  row loop, for every row whose URL cell is falsy (\<open>None\<close>, the empty string, 0,
  \<open>False\<close>) or a string of whitespace only, nothing is fetched: the network state and
  the requests issued are as before, the sheet is unchanged, and the row is logged as
  \<open>no-bytes\<close>.
\<close>

theorem blank_cell_no_fetch:
  "((\<forall>s. v \<noteq> PStr s) \<longrightarrow> fetch_image E w v = (Inr [], w, [])) \<and>
   (list_all py_isspace s \<longrightarrow> fetch_image E w (PStr s) = (Inr [], w, [])) \<and>
   (\<not> py_truthy (cell_value (run_ws st) r ct) \<or>
    (\<exists>t. cell_value (run_ws st) r ct = PStr t \<and> list_all py_isspace t) \<longrightarrow>
      row_fetch E (run_world st) (row_url (run_ws st) r ct) = (Inr [], run_world st, []) \<and>
      row_step E ct cd ci r st =
        st\<lparr>run_fail := run_fail st + 1, run_logs := run_logs st @ [(r - 1, ''no-bytes'')]\<rparr>)"
proof (intro conjI impI)
  assume "\<forall>s. v \<noteq> PStr s"
  then show "fetch_image E w v = (Inr [], w, [])" by (rule fetch_non_str)
next
  assume "list_all py_isspace s"
  then show "fetch_image E w (PStr s) = (Inr [], w, [])" by (rule fetch_blank)
next
  assume a: "\<not> py_truthy (cell_value (run_ws st) r ct) \<or>
    (\<exists>t. cell_value (run_ws st) r ct = PStr t \<and> list_all py_isspace t)"
  from row_url_blank [OF a] have u: "row_url (run_ws st) r ct = []" by (simp add: row_url_def)
  then show f: "row_fetch E (run_world st) (row_url (run_ws st) r ct) = (Inr [], run_world st, [])"
    by (simp add: row_fetch_def)
  from row_step_empty [OF f]
  show "row_step E ct cd ci r st =
        st\<lparr>run_fail := run_fail st + 1, run_logs := run_logs st @ [(r - 1, ''no-bytes'')]\<rparr>"
    by simp
qed

theorem blank_cell_no_fetch_witness:
  "(\<forall>s. PInt 123 \<noteq> PStr s) \<and> fetch_image demo_env 0 (PInt 123) = (Inr [], 0, []) \<and>
   list_all py_isspace [CHR '' '', CHR 0x09] \<and>
   fetch_image demo_env 0 (PStr [CHR '' '', CHR 0x09]) = (Inr [], 0, []) \<and>
   \<not> py_truthy (cell_value (run_ws (one_row_state PNone)) 2 1) \<and>
   row_step demo_env 1 2 3 2 (one_row_state PNone) =
     (one_row_state PNone)\<lparr>run_fail := 1, run_logs := [(1, ''no-bytes'')]\<rparr>"
proof -
  have h1: "\<forall>s. PInt 123 \<noteq> PStr s" by simp
  have h2: "list_all py_isspace [CHR '' '', CHR 0x09]" by (simp add: py_isspace_def)
  have h3: "\<not> py_truthy (cell_value (run_ws (one_row_state PNone)) 2 1)"
    by (simp add: one_row_defs cell_value_def)
  have s: "run_fail (one_row_state PNone) = 0" "run_logs (one_row_state PNone) = []"
    by (simp_all add: one_row_state_def)
  from blank_cell_no_fetch [of "PInt 123" demo_env 0 "[CHR '' '', CHR 0x09]" "one_row_state PNone" 2 1 2 3]
    h1 h2 h3 s
  show ?thesis by simp
qed

text \<open>
  Claim C8 as stated (every row whose URL cell is not a string) fails on a cell holding
  the number 123, and on the \<open>nan\<close> that pandas reads from an empty cell: line 123 turns
  the value into the string \<open>123\<close> (or \<open>nan\<close>), \<open>fetch_image\<close> is called with it and
  calls \<open>Session.get\<close>, which raises; the row has no empty fetch result and is logged as
  an error.
\<close>

theorem non_string_cell_counterexample:
  "fetch_image demo_env 0 (PStr ''123'') = (Inl (Exc ''MissingSchema''), 1, [mk_request ''123'' ''123'' True]) \<and>
   build_excel_with_images demo_env 0 (one_row_df (PInt 123)) 0 =
     (Inr (one_row_sheet (PInt 123), [(1, ''error:MissingSchema'')]), 1, [mk_request ''123'' ''123'' True]) \<and>
   build_excel_with_images demo_env 0 (one_row_df PNaN) 0 =
     (Inr (one_row_sheet PNaN, [(1, ''error:MissingSchema'')]), 1, [mk_request ''nan'' ''nan'' True]) \<and>
   [mk_request ''123'' ''123'' True] \<noteq> []"
  by (simp add: one_row_defs sheet_defs demo_defs fetch_defs int_str_def nat_digits.simps digit_char_def)

subsection \<open>Imaging\<close>

lemma sniff_mime_range:
  "sniff_mime E b = ''image/jpeg'' \<or> sniff_mime E b = ''image/png'' \<or> sniff_mime E b = ''image/gif''"
  by (simp add: sniff_mime_def Let_def)

lemma str_upper_empty: "str_upper f = [] \<longleftrightarrow> f = []"
  by (simp add: str_upper_def)

lemma sniff_mime_format:
  assumes "pil_format E b = Inr (Some f)"
  shows "sniff_mime E b =
     (if str_upper f = ''JPG'' \<or> str_upper f = ''JPEG'' then ''image/jpeg''
      else if str_upper f = ''GIF'' then ''image/gif'' else ''image/png'')"
proof (cases "f = []")
  case True
  have "str_upper ''PNG'' = ''PNG''" by (simp add: str_upper_def upper_char_def)
  with True assms show ?thesis by (simp add: sniff_mime_def Let_def str_upper_def)
next
  case False
  with assms show ?thesis by (simp add: sniff_mime_def Let_def)
qed

lemma sniff_mime_default:
  "pil_format E b = Inr None \<or> (\<exists>e. pil_format E b = Inl e) \<Longrightarrow> sniff_mime E b = ''image/png''"
  by (auto simp: sniff_mime_def Let_def str_upper_def upper_char_def)

lemma demo_formats:
  "pil_format demo_env demo_jpeg = Inr (Some ''JPEG'')"
  "pil_format demo_env demo_png = Inr (Some ''PNG'')"
  "pil_format demo_env [0x47, 0x49, 0x46, 0x38] = Inr (Some ''GIF'')"
  "pil_format demo_env [0x42, 0x4D, 0x00] = Inr (Some ''BMP'')"
  "pil_format demo_env demo_html = Inl (Exc ''UnidentifiedImageError'')"
  by (simp_all add: demo_defs)

lemma demo_uppers:
  "str_upper ''JPEG'' = ''JPEG''" "str_upper ''PNG'' = ''PNG''" "str_upper ''GIF'' = ''GIF''"
  "str_upper ''BMP'' = ''BMP''" "str_upper ''jpeg'' = ''JPEG''"
  by (simp_all add: str_upper_def upper_char_def)

text \<open>
  Claim C9. \<open>sniff_mime\<close> returns one of \<open>image/jpeg\<close>, \<open>image/png\<close> and
  \<open>image/gif\<close> and nothing else: \<open>image/jpeg\<close> when Pillow reports the format JPEG
  (or JPG, in any letter case), \<open>image/png\<close> for PNG, \<open>image/gif\<close> for GIF, and
  \<open>image/png\<close> for every other format, for no format, and when Pillow cannot open the
  bytes.
\<close>

theorem sniff_mime_result:
  "sniff_mime E b \<in> {''image/jpeg'', ''image/png'', ''image/gif''} \<and>
   (pil_format E b = Inr (Some f) \<and> (str_upper f = ''JPG'' \<or> str_upper f = ''JPEG'') \<longrightarrow>
      sniff_mime E b = ''image/jpeg'') \<and>
   (pil_format E b = Inr (Some f) \<and> str_upper f = ''PNG'' \<longrightarrow> sniff_mime E b = ''image/png'') \<and>
   (pil_format E b = Inr (Some f) \<and> str_upper f = ''GIF'' \<longrightarrow> sniff_mime E b = ''image/gif'') \<and>
   (pil_format E b = Inr (Some f) \<and> str_upper f \<notin> {''JPG'', ''JPEG'', ''GIF''} \<longrightarrow>
      sniff_mime E b = ''image/png'') \<and>
   (pil_format E b = Inr None \<longrightarrow> sniff_mime E b = ''image/png'') \<and>
   (pil_format E b = Inl e \<longrightarrow> sniff_mime E b = ''image/png'')"
  using sniff_mime_range [of E b] sniff_mime_format [of E b f] sniff_mime_default [of E b]
  by auto

theorem sniff_mime_result_witness:
  "pil_format demo_env demo_jpeg = Inr (Some ''JPEG'') \<and> sniff_mime demo_env demo_jpeg = ''image/jpeg'' \<and>
   pil_format demo_env demo_png = Inr (Some ''PNG'') \<and> sniff_mime demo_env demo_png = ''image/png'' \<and>
   pil_format demo_env [0x47, 0x49, 0x46, 0x38] = Inr (Some ''GIF'') \<and>
   sniff_mime demo_env [0x47, 0x49, 0x46, 0x38] = ''image/gif'' \<and>
   pil_format demo_env [0x42, 0x4D, 0x00] = Inr (Some ''BMP'') \<and>
   sniff_mime demo_env [0x42, 0x4D, 0x00] = ''image/png'' \<and>
   pil_format demo_env demo_html = Inl (Exc ''UnidentifiedImageError'') \<and>
   sniff_mime demo_env demo_html = ''image/png''"
proof -
  from sniff_mime_result [of demo_env demo_jpeg "''JPEG''"] demo_formats(1) demo_uppers(1)
  have a: "sniff_mime demo_env demo_jpeg = ''image/jpeg''" by simp
  from sniff_mime_result [of demo_env demo_png "''PNG''"] demo_formats(2) demo_uppers(2)
  have b: "sniff_mime demo_env demo_png = ''image/png''" by simp
  from sniff_mime_result [of demo_env "[0x47, 0x49, 0x46, 0x38]" "''GIF''"] demo_formats(3) demo_uppers(3)
  have c: "sniff_mime demo_env [0x47, 0x49, 0x46, 0x38] = ''image/gif''" by simp
  from sniff_mime_result [of demo_env "[0x42, 0x4D, 0x00]" "''BMP''"] demo_formats(4) demo_uppers(4)
  have d: "sniff_mime demo_env [0x42, 0x4D, 0x00] = ''image/png''" by simp
  from sniff_mime_result [of demo_env demo_html _ "Exc ''UnidentifiedImageError''"] demo_formats(5)
  have e: "sniff_mime demo_env demo_html = ''image/png''" by simp
  from a b c d e demo_formats show ?thesis by simp
qed

lemma demo_b64_jpeg: "b64encode demo_jpeg = ''/9j/4A==''"
  by (simp add: demo_jpeg_def b64_char_def b64_alphabet_def sextet1_def sextet2_def sextet3_def sextet4_def)

text \<open>
  Claim C5. For every byte string \<open>b\<close> (empty or not), \<open>to_data_url b\<close> is \<open>data:\<close>,
  the MIME type, \<open>;base64,\<close> and a payload whose base64 decoding is exactly \<open>b\<close>,
  the bytes passed in.
\<close>

theorem to_data_url_roundtrip:
  "to_data_url E b = ''data:'' @ sniff_mime E b @ '';base64,'' @ b64encode b \<and>
   b64decode (b64encode b) = Some b \<and>
   b64decode (drop (length (''data:'' @ sniff_mime E b @ '';base64,'')) (to_data_url E b)) = Some b"
proof (intro conjI)
  show u: "to_data_url E b = ''data:'' @ sniff_mime E b @ '';base64,'' @ b64encode b"
    by (simp add: to_data_url_def Let_def)
  show "b64decode (b64encode b) = Some b" by (rule b64_roundtrip)
  have "drop (length (''data:'' @ sniff_mime E b @ '';base64,''))
          ((''data:'' @ sniff_mime E b @ '';base64,'') @ b64encode b) = b64encode b"
    by (rule append_eq_conv_conj [THEN iffD1, THEN conjunct2, symmetric]) simp
  then show "b64decode (drop (length (''data:'' @ sniff_mime E b @ '';base64,'')) (to_data_url E b)) = Some b"
    unfolding u by (simp add: b64_roundtrip)
qed

theorem to_data_url_roundtrip_witness:
  "to_data_url demo_env demo_jpeg = ''data:image/jpeg;base64,/9j/4A=='' \<and>
   b64decode ''/9j/4A=='' = Some demo_jpeg"
proof -
  have m: "sniff_mime demo_env demo_jpeg = ''image/jpeg''"
    by (simp add: sniff_mime_def demo_defs str_upper_def upper_char_def)
  note t = to_data_url_roundtrip [of demo_env demo_jpeg]
  from t have a: "to_data_url demo_env demo_jpeg = ''data:image/jpeg;base64,/9j/4A==''"
    by (simp add: m demo_b64_jpeg)
  from t have b: "b64decode ''/9j/4A=='' = Some demo_jpeg"
    by (simp add: demo_b64_jpeg)
  from a b show ?thesis by simp
qed

subsection \<open>What openpyxl stores\<close>

text \<open>
  When \<open>ws.append\<close> refuses a value of the table, the sheet builder raises before the
  row loop: there is no log and no request. A table whose URL is a vertical tab is an
  example.
\<close>

lemma append_refused:
  "''thumbnail'' \<in> set (df_columns df) \<Longrightarrow>
   sheet_of_df (ensure_dataurl (cap_rows df max_rows)) = Inl e \<Longrightarrow>
   build_excel_with_images E w df max_rows = (Inl e, w, [])"
  by (simp add: build_excel_with_images_def prepare_sheet_def)

lemma control_char_refused:
  "build_excel_with_images demo_env 0 (one_row_df (PStr [CHR 0x0B])) 0 =
     (Inl (Exc ''IllegalCharacterError''), 0, [])"
  by (simp add: one_row_defs sheet_defs)

text \<open>
  A data URL holds no character that openpyxl refuses, so the assignment of line 128
  never raises; the cell then holds the first 32767 characters of the data URL.
\<close>

lemma b64_char_in_alphabet: "i < 64 \<Longrightarrow> b64_char i \<in> set b64_alphabet"
  unfolding b64_char_def by (simp add: b64_alphabet_length)

lemma b64encode_chars: "set (b64encode b) \<subseteq> insert CHR ''='' (set b64_alphabet)"
  by (induction b rule: b64encode.induct) (auto simp: b64_char_in_alphabet sextet_less)

lemma b64_chars_legal: "\<forall>c\<in>insert CHR ''='' (set b64_alphabet). \<not> illegal_char c"
  by (simp add: b64_alphabet_def illegal_char_def)

lemma data_url_legal: "\<not> list_ex illegal_char (to_data_url E b)"
proof -
  have m: "\<not> list_ex illegal_char (sniff_mime E b)"
    using sniff_mime_range [of E b] by (auto simp: illegal_char_def)
  have p: "\<not> list_ex illegal_char ''data:''" "\<not> list_ex illegal_char '';base64,''"
    by (simp_all add: illegal_char_def)
  have e: "\<not> list_ex illegal_char (b64encode b)"
    using b64encode_chars [of b] b64_chars_legal by (auto simp: list_ex_iff)
  from m p e show ?thesis by (auto simp: to_data_url_def Let_def list_ex_iff)
qed

lemma data_url_stored:
  "set_cell ws r c (PStr (to_data_url E b)) = Inr (put_cell ws r c (PStr (take 32767 (to_data_url E b))))"
proof -
  have "\<not> list_ex illegal_char (take 32767 (to_data_url E b))"
    using data_url_legal [of E b] by (auto simp: list_ex_iff dest: in_set_takeD)
  then show ?thesis by (simp add: set_cell_def check_string_def)
qed

lemma row_step_written:
  assumes "row_fetch E (run_world st) (row_url (run_ws st) r ct) = (Inr img, w', calls)" "img \<noteq> []"
    and "1 \<le> r" "1 \<le> cd"
  shows "cell_value (run_ws (row_step E ct cd ci r st)) r cd = PStr (take 32767 (to_data_url E img))"
  using assms
  by (auto simp: row_step_def log_error_def Let_def cell_value_images_update cell_value_put_cell
           data_url_stored split: sum.splits option.splits)

end
